theory Spec2Isabelle
  imports Complex_Main "HOL-Library.Multiset" "HOL-Library.Sublist"
begin

section \<open>Data model: atoms, chunk collections, corpora\<close>

text \<open>
  The tables of the program are PyArrow tables. A table is modelled by its schema (the
  list of column names) and its rows. The atom table has the columns \<open>id\<close>, and
  conventionally \<open>ordinal\<close> and \<open>text\<close>; a row carries a value for each of them, and
  the value of a column that the schema does not list is never read (the operators check
  the schema first, or the library raises). The cells of the three columns hold non-null
  values; the other columns of an atom are kept by name, and a missing entry is a null.

  Ids are opaque; they are modelled as natural numbers.
\<close>

type_synonym ident = nat

datatype error =
    KeyError string
  | ValueError string
  | TypeError string
  | ColumnNotFoundError string
  | ArrowInvalid string
  | IndexError string
  | ComputeError string

datatype val = Null | IntV int | StrV string | IdV ident

record atom =
  atom_id :: ident
  ordinal :: int
  atom_text :: string
  other :: "(string \<times> val) list"

record atom_table =
  names :: "string list"
  rows :: "atom list"

text \<open>
  A row of \<open>Chunks.chunks\<close>: the \<open>id\<close> column and the attribute columns. The attribute
  columns of the table are listed in \<open>columns\<close> of the collection.
\<close>

record 'v chunk_row =
  chunk_id :: ident
  attrs :: "(string \<times> 'v) list"

text \<open>
  \<open>class Chunks\<close>: \<open>corpus\<close> is the reference to the parent corpus (the identity of the
  object), \<open>chunks\<close> the chunk table and \<open>chunk_atoms\<close> the table of (chunk, atom) pairs.
\<close>

record 'v Chunks =
  corpus :: nat
  columns :: "string list"
  chunks :: "'v chunk_row list"
  chunk_atoms :: "(ident \<times> ident) list"

text \<open>
  \<open>class Corpus\<close>: \<open>ref\<close> is the identity of the object, \<open>atoms\<close> the atom table and
  \<open>corpus_chunks\<close> the dictionary \<open>self.chunks\<close> from names to chunk collections.
\<close>

record 'v Corpus =
  ref :: nat
  atoms :: atom_table
  corpus_chunks :: "(string \<times> 'v Chunks) list"

text \<open>\<open>Chunks.__len__\<close>.\<close>

definition len :: "'v Chunks \<Rightarrow> nat" where
  "len c = length (chunks c)"

text \<open>\<open>Corpus.chunk\<close> on a name: the dictionary lookup raises \<open>KeyError\<close> on a missing name.\<close>

definition chunk :: "'v Corpus \<Rightarrow> string \<Rightarrow> error + 'v Chunks" where
  "chunk corp name =
     (case map_of (corpus_chunks corp) name of
        None \<Rightarrow> Inl (KeyError name)
      | Some c \<Rightarrow> Inr c)"

text \<open>
  \<open>Corpus.chunk\<close> on a name or on a chunk expression: an expression is called on the
  corpus.
\<close>

definition chunk_of :: "'v Corpus \<Rightarrow> string + ('v Corpus \<Rightarrow> error + 'v Chunks) \<Rightarrow> error + 'v Chunks"
  where
  "chunk_of corp chunk_expr =
     (case chunk_expr of
        Inl name \<Rightarrow> chunk corp name
      | Inr expr \<Rightarrow> expr corp)"

section \<open>Chunk filters\<close>

text \<open>
  The column \<open>chunks.chunks[attr]\<close>; a missing column raises \<open>KeyError\<close>. A table
  gives every row a cell for each of its columns; \<open>has_column\<close> says so for one column.
\<close>

definition cell :: "string \<Rightarrow> 'v chunk_row \<Rightarrow> 'v option" where
  "cell attr r = map_of (attrs r) attr"

definition has_column :: "string \<Rightarrow> 'v Chunks \<Rightarrow> bool" where
  "has_column attr c \<longleftrightarrow> attr \<in> set (columns c) \<and> list_all (\<lambda>r. cell attr r \<noteq> None) (chunks c)"

definition column :: "string \<Rightarrow> 'v Chunks \<Rightarrow> 'v list" where
  "column attr c = map (\<lambda>r. the (cell attr r)) (chunks c)"

text \<open>
  \<open>pa.compute.select_k_unstable\<close> is a kernel of the PyArrow library. It is a parameter
  \<open>sel\<close> of \<open>TopK\<close>: \<open>sel values k ascending\<close> is the list of row indices the kernel
  returns. \<open>select_k_unstable_spec\<close> is the kernel's documented contract: the indices of
  the first \<open>k\<close> elements in the given order (all of them when \<open>k\<close> exceeds the length),
  where the order among equal elements is not specified.
\<close>

definition ordered :: "bool \<Rightarrow> 'v::linorder \<Rightarrow> 'v \<Rightarrow> bool" where
  "ordered ascending x y = (if ascending then x \<le> y else y \<le> x)"

definition select_k_unstable_spec :: "'v::linorder list \<Rightarrow> nat \<Rightarrow> bool \<Rightarrow> nat list \<Rightarrow> bool" where
  "select_k_unstable_spec values k ascending idxs \<longleftrightarrow>
     length idxs = min k (length values) \<and>
     distinct idxs \<and>
     list_all (\<lambda>i. i < length values) idxs \<and>
     sorted_wrt (\<lambda>i j. ordered ascending (values ! i) (values ! j)) idxs \<and>
     list_all (\<lambda>j. j \<in> set idxs \<or> list_all (\<lambda>i. ordered ascending (values ! i) (values ! j)) idxs)
       [0..<length values]"

text \<open>\<open>Table.take\<close>: the rows at the given indices; an index out of bounds raises.\<close>

definition take_rows :: "'a list \<Rightarrow> nat list \<Rightarrow> error + 'a list" where
  "take_rows rs idxs =
     (if list_all (\<lambda>i. i < length rs) idxs then Inr (map (\<lambda>i. rs ! i) idxs)
      else Inl (IndexError ''index out of bounds''))"

text \<open>\<open>TopK.__call__\<close>.\<close>

definition TopK ::
  "('v list \<Rightarrow> nat \<Rightarrow> bool \<Rightarrow> nat list) \<Rightarrow> string \<Rightarrow> nat \<Rightarrow> bool \<Rightarrow> 'v Chunks \<Rightarrow> error + 'v Chunks"
  where
  "TopK sel attr k reverse c =
     (if \<not> has_column attr c then Inl (KeyError attr)
      else
        let values = column attr c;
            filtered_idxs = sel values k reverse
        in case take_rows (chunks c) filtered_idxs of
             Inl e \<Rightarrow> Inl e
           | Inr filtered_chunks \<Rightarrow>
               Inr \<lparr>corpus = corpus c, columns = columns c, chunks = filtered_chunks,
                    chunk_atoms = chunk_atoms c\<rparr>)"

text \<open>
  \<open>Threshold\<close>: the constructor refuses a direction other than the four comparison
  signs, and \<open>__call__\<close> repeats the check in its last case.
\<close>

definition compare_values :: "string \<Rightarrow> 'v::linorder \<Rightarrow> 'v \<Rightarrow> bool option" where
  "compare_values direction x threshold =
     (if direction = ''>='' then Some (x \<ge> threshold)
      else if direction = ''>'' then Some (x > threshold)
      else if direction = ''<='' then Some (x \<le> threshold)
      else if direction = ''<'' then Some (x < threshold)
      else None)"

definition Threshold :: "string \<Rightarrow> string \<Rightarrow> 'v::linorder \<Rightarrow> 'v Chunks \<Rightarrow> error + 'v Chunks" where
  "Threshold attr direction threshold c =
     (if direction \<notin> {''>'', ''>='', ''<'', ''<=''}
      then Inl (ValueError ''direction must one of: >, >=, <, <='')
      else if \<not> has_column attr c then Inl (KeyError attr)
      else
        Inr \<lparr>corpus = corpus c, columns = columns c,
             chunks = filter (\<lambda>r. compare_values direction (the (cell attr r)) threshold = Some True)
                        (chunks c),
             chunk_atoms = chunk_atoms c\<rparr>)"

text \<open>\<open>EqualTo.__call__\<close>: the mask is \<open>is_in(values, self.values)\<close>.\<close>

definition EqualTo :: "string \<Rightarrow> 'v list \<Rightarrow> 'v Chunks \<Rightarrow> error + 'v Chunks" where
  "EqualTo attr vals c =
     (if \<not> has_column attr c then Inl (KeyError attr)
      else
        Inr \<lparr>corpus = corpus c, columns = columns c,
             chunks = filter (\<lambda>r. the (cell attr r) \<in> set vals) (chunks c),
             chunk_atoms = chunk_atoms c\<rparr>)"

text \<open>
  What a filter may do to a collection: subset or reorder the rows of the chunk table,
  and leave the membership table and the corpus reference alone.
\<close>

definition frame_kept :: "'v Chunks \<Rightarrow> 'v Chunks \<Rightarrow> bool" where
  "frame_kept c c' \<longleftrightarrow>
     len c' \<le> len c \<and> chunk_atoms c' = chunk_atoms c \<and> corpus c' = corpus c \<and>
     mset (chunks c') \<subseteq># mset (chunks c)"

text \<open>
  A stable tie-break: among the selected rows, rows with equal values appear in the
  order of the input.
\<close>

definition keeps_tie_order :: "'v list \<Rightarrow> nat list \<Rightarrow> bool" where
  "keeps_tie_order values idxs \<longleftrightarrow>
     sorted_wrt (\<lambda>i j. values ! i = values ! j \<longrightarrow> i < j) idxs"

text \<open>A chunk collection of three lines with a \<open>width\<close> attribute, two of them equally wide.\<close>

definition ex_rows :: "int chunk_row list" where
  "ex_rows =
     [\<lparr>chunk_id = 10, attrs = [(''width'', 7)]\<rparr>,
      \<lparr>chunk_id = 11, attrs = [(''width'', 7)]\<rparr>,
      \<lparr>chunk_id = 12, attrs = [(''width'', 5)]\<rparr>]"

definition ex_chunks :: "int Chunks" where
  "ex_chunks =
     \<lparr>corpus = 0, columns = [''width''], chunks = ex_rows,
      chunk_atoms = [(10, 1), (11, 2), (12, 3)]\<rparr>"



section \<open>Dataframe operations\<close>

text \<open>
  The operators are written with the Polars dataframe library. Its operations are modelled
  on lists of rows. A join keeps the order of its left table, and lists the matches of one
  left row in the order of the right table. A left join keeps a left row without a match,
  with a null on the right; a null key matches nothing.
\<close>

definition inner_join :: "'a list \<Rightarrow> 'b list \<Rightarrow> ('a \<Rightarrow> 'k) \<Rightarrow> ('b \<Rightarrow> 'k) \<Rightarrow> ('a \<times> 'b) list" where
  "inner_join left right left_on right_on =
     concat (map (\<lambda>l. map (Pair l) (filter (\<lambda>r. right_on r = left_on l) right)) left)"

definition left_join ::
  "'a list \<Rightarrow> 'b list \<Rightarrow> ('a \<Rightarrow> 'k option) \<Rightarrow> ('b \<Rightarrow> 'k) \<Rightarrow> ('a \<times> 'b option) list" where
  "left_join left right left_on right_on =
     concat (map (\<lambda>l. case filter (\<lambda>r. Some (right_on r) = left_on l) right of
                          [] \<Rightarrow> [(l, None)]
                        | ms \<Rightarrow> map (\<lambda>r. (l, Some r)) ms) left)"

text \<open>The distinct keys of a column, in the order of their first appearance.\<close>

definition unique :: "'k list \<Rightarrow> 'k list" where
  "unique ks = rev (remdups (rev ks))"

text \<open>
  \<open>group_by\<close>: one group per key, the rows of a group in their order in the table. The
  groups are listed in the order of first appearance, which is what \<open>maintain_order=True\<close>
  promises; without it Polars promises no order of the groups, and nothing below depends on
  the order of the groups of such a call.
\<close>

definition group_by :: "('r \<Rightarrow> 'k) \<Rightarrow> 'r list \<Rightarrow> ('k \<times> 'r list) list" where
  "group_by key rs = map (\<lambda>k. (k, filter (\<lambda>r. key r = k) rs)) (unique (map key rs))"

text \<open>
  \<open>DataFrame.sort\<close> on two columns, the first the major key: a stable sort on the minor
  key followed by a stable sort on the major key.
\<close>

definition sort_rows :: "('r \<Rightarrow> 'a::linorder) \<Rightarrow> ('r \<Rightarrow> 'b::linorder) \<Rightarrow> 'r list \<Rightarrow> 'r list" where
  "sort_rows major minor rs = sort_key major (sort_key minor rs)"

text \<open>\<open>str.join\<close>: the strings of a group, with the delimiter between neighbours.\<close>

fun str_join :: "string \<Rightarrow> string list \<Rightarrow> string" where
  "str_join d [] = []"
| "str_join d [x] = x"
| "str_join d (x # y # ys) = x @ d @ str_join d (y # ys)"

text \<open>\<open>cum_sum\<close> and \<open>shift(1, fill_value)\<close> on a column.\<close>

fun cum_sum_from :: "nat \<Rightarrow> nat list \<Rightarrow> nat list" where
  "cum_sum_from acc [] = []"
| "cum_sum_from acc (x # xs) = (acc + x) # cum_sum_from (acc + x) xs"

definition cum_sum :: "nat list \<Rightarrow> nat list" where
  "cum_sum xs = cum_sum_from 0 xs"

definition shift1 :: "'a \<Rightarrow> 'a list \<Rightarrow> 'a list" where
  "shift1 fill_value xs = (if xs = [] then [] else fill_value # butlast xs)"

section \<open>Chunk expressions\<close>

text \<open>
  Both chunkers start from the membership table of the bounding chunks, renamed to
  (constraint, atom), joined with the atom table on the atom id.
\<close>

definition joined :: "'v Corpus \<Rightarrow> 'v Chunks \<Rightarrow> (ident \<times> atom) list" where
  "joined corp bounding =
     map (\<lambda>((constraint, _), a). (constraint, a))
       (inner_join (chunk_atoms bounding) (rows (atoms corp)) snd atom_id)"

text \<open>\<open>joined.sort(["constraint", "ordinal"])\<close>.\<close>

definition joined_sorted :: "'v Corpus \<Rightarrow> 'v Chunks \<Rightarrow> (ident \<times> atom) list" where
  "joined_sorted corp bounding = sort_rows fst (\<lambda>r. ordinal (snd r)) (joined corp bounding)"








text \<open>
  \<open>RegexMatchChunk.__call__\<close>. \<open>finditer pattern x\<close> is the list of the spans
  (start, end) of \<open>re.finditer(pattern, x)\<close>, and \<open>hash\<close> the library's hash of the
  struct (constraint, start, end). The column \<open>text\<close> is first read when the start
  indices are selected; Polars raises \<open>ColumnNotFoundError\<close> there when the atom table
  has no such column.
\<close>

definition SPACER :: string where
  "SPACER = '' ''"

text \<open>The search string of one bounding chunk, and the start index of each of its atoms.\<close>

definition search_string :: "(ident \<times> atom) list \<Rightarrow> string" where
  "search_string grp = str_join SPACER (map (\<lambda>r. atom_text (snd r)) grp)"

definition start_index :: "(ident \<times> atom) list \<Rightarrow> nat list" where
  "start_index grp =
     shift1 0 (cum_sum (map (\<lambda>r. length (atom_text (snd r)) + length SPACER) grp))"

text \<open>The frame \<open>indices\<close>: (constraint, atom, start index), computed over each constraint.\<close>

definition indices :: "'v Corpus \<Rightarrow> 'v Chunks \<Rightarrow> (ident \<times> ident \<times> nat) list" where
  "indices corp bounding =
     concat (map (\<lambda>(constraint, grp).
                    map (\<lambda>(r, i). (constraint, atom_id (snd r), i)) (zip grp (start_index grp)))
               (group_by fst (joined_sorted corp bounding)))"

text \<open>
  The matches of each bounding chunk, exploded: one row per match, and one row with a null
  match for a bounding chunk without a match.
\<close>

definition matches ::
  "(string \<Rightarrow> string \<Rightarrow> (nat \<times> nat) list) \<Rightarrow> string \<Rightarrow> 'v Corpus \<Rightarrow> 'v Chunks \<Rightarrow>
     (ident \<times> (nat \<times> nat) option) list" where
  "matches finditer pattern corp bounding =
     concat (map (\<lambda>(constraint, grp).
                    case finditer pattern (search_string grp) of
                      [] \<Rightarrow> [(constraint, None)]
                    | ms \<Rightarrow> map (\<lambda>m. (constraint, Some m)) ms)
               (group_by fst (joined_sorted corp bounding)))"

text \<open>
  The rows that survive the filter \<open>start_index.is_between(start, end)\<close>, whose bounds
  are both inclusive; a null match gives a null, and the row is dropped.
\<close>

definition match_rows ::
  "(string \<Rightarrow> string \<Rightarrow> (nat \<times> nat) list) \<Rightarrow> string \<Rightarrow> 'v Corpus \<Rightarrow> 'v Chunks \<Rightarrow>
     ((ident \<times> nat \<times> nat) \<times> ident) list" where
  "match_rows finditer pattern corp bounding =
     concat (map (\<lambda>((constraint, m), (_, a, i)).
                    case m of
                      None \<Rightarrow> []
                    | Some (s, e) \<Rightarrow> if s \<le> i \<and> i \<le> e then [((constraint, s, e), a)] else [])
               (inner_join (matches finditer pattern corp bounding) (indices corp bounding) fst fst))"

definition RegexMatchChunk ::
  "(string \<Rightarrow> string \<Rightarrow> (nat \<times> nat) list) \<Rightarrow> (ident \<times> nat \<times> nat \<Rightarrow> ident) \<Rightarrow>
     string \<Rightarrow> string \<Rightarrow> 'v Corpus \<Rightarrow> error + 'v Chunks" where
  "RegexMatchChunk finditer hash constrain_to pattern corp =
     (if ''ordinal'' \<notin> set (names (atoms corp))
      then Inl (KeyError ''Regex-match chunking requires the atoms to have ordinal column, but none was found.'')
      else case chunk corp constrain_to of
        Inl e \<Rightarrow> Inl e
      | Inr bounding \<Rightarrow>
          if ''text'' \<notin> set (names (atoms corp)) then Inl (ColumnNotFoundError ''text'')
          else
            let frame = group_by fst
                  (map (\<lambda>(key, a). (hash key, a)) (match_rows finditer pattern corp bounding))
            in Inr \<lparr>corpus = ref corp, columns = [],
                    chunks = map (\<lambda>(i, members). \<lparr>chunk_id = i, attrs = []\<rparr>) frame,
                    chunk_atoms = concat (map (\<lambda>(i, members). map (\<lambda>r. (i, snd r)) members) frame)\<rparr>)"

section \<open>Attribute expressions\<close>

text \<open>
  An attribute expression is called on a chunk collection and reads the corpus through the
  reference \<open>chunks.corpus\<close>. In the model the corpus object that the reference points to
  is the argument \<open>corp\<close>.
\<close>

text \<open>
  The value of an atom in a column of the joined frame: the atom table's columns, \<open>id\<close>
  apart (the join key of the right table is dropped), and the column \<open>atom\<close> of the
  membership table.
\<close>

definition atom_value :: "string \<Rightarrow> atom \<Rightarrow> val" where
  "atom_value attr a =
     (if attr = ''atom'' then IdV (atom_id a)
      else if attr = ''ordinal'' then IntV (ordinal a)
      else if attr = ''text'' then StrV (atom_text a)
      else case map_of (other a) attr of None \<Rightarrow> Null | Some v \<Rightarrow> v)"

text \<open>\<open>AtomData.__call__\<close>: two inner joins, then one list per group.\<close>

definition AtomData :: "string \<Rightarrow> 'v Corpus \<Rightarrow> 'v Chunks \<Rightarrow> error + val list list" where
  "AtomData attr corp c =
     (let with_atoms = inner_join (map chunk_id (chunks c)) (chunk_atoms c) (\<lambda>i. i) fst;
          with_data = inner_join with_atoms (rows (atoms corp)) (\<lambda>(_, _, a). a) atom_id
      in if attr \<noteq> ''atom'' \<and> (attr = ''id'' \<or> attr \<notin> set (names (atoms corp)))
         then Inl (ColumnNotFoundError attr)
         else Inr (map (\<lambda>(chunk, grp). map (\<lambda>(_, a). atom_value attr a) grp)
                     (group_by (\<lambda>((chunk, _), _). chunk) with_data)))"

text \<open>
  \<open>RegexCount.__call__\<close>. \<open>findall pattern flags x\<close> is the number of matches that
  \<open>re.findall\<close> returns; \<open>re.findall\<close> raises \<open>TypeError\<close> on a null.
\<close>

definition RegexCount ::
  "(string \<Rightarrow> int \<Rightarrow> string \<Rightarrow> nat) \<Rightarrow> ('v Chunks \<Rightarrow> error + string option list) \<Rightarrow>
     string \<Rightarrow> int \<Rightarrow> 'v Chunks \<Rightarrow> error + nat list" where
  "RegexCount findall stringifier pattern flags c =
     (case stringifier c of
        Inl e \<Rightarrow> Inl e
      | Inr strings \<Rightarrow>
          if None \<in> set strings then Inl (TypeError ''expected string or bytes-like object'')
          else Inr (map (\<lambda>x. findall pattern flags (the x)) strings))"

text \<open>
  \<open>ChunkOverlap\<close>. The constructor refuses an aggregation other than the three; the call
  left-joins the collection's membership table with the one of \<open>chunk_b\<close> and aggregates
  over the groups of the column \<open>chunk\<close>.
\<close>

datatype overlap = OBool bool | OCount nat | OFrac rat

definition aggregate :: "string \<Rightarrow> bool list \<Rightarrow> overlap" where
  "aggregate agg not_null =
     (if agg = ''bool'' then OBool (True \<in> set not_null)
      else if agg = ''count'' then OCount (length (filter (\<lambda>b. b) not_null))
      else OFrac (of_nat (length (filter (\<lambda>b. b) not_null)) / of_nat (length not_null)))"

definition ChunkOverlap ::
  "string + ('v Corpus \<Rightarrow> error + 'v Chunks) \<Rightarrow> string \<Rightarrow> 'v Corpus \<Rightarrow> 'v Chunks \<Rightarrow>
     error + overlap list" where
  "ChunkOverlap chunk_b agg corp c =
     (if agg \<notin> {''bool'', ''count'', ''frac''}
      then Inl (ValueError ''agg kwarg should be one of: bool, count, frac'')
      else case chunk_of corp chunk_b of
        Inl e \<Rightarrow> Inl e
      | Inr b \<Rightarrow>
          let overlaps = left_join (chunk_atoms c) (chunk_atoms b) (\<lambda>r. Some (snd r)) snd
          in Inr (map (\<lambda>(chunk, grp). aggregate agg (map (\<lambda>(_, m). m \<noteq> None) grp))
                    (group_by (\<lambda>(r, _). fst r) overlaps)))"



text \<open>
  \<open>ChunkDelimitedStringify.__call__\<close>. A row of the frame \<open>enriched\<close>: the chunk, the
  atom, its text and ordinal (nulls for a chunk without atoms), and one column per chunk
  type of \<open>chunk_delimiters\<close>, holding the id of the chunk of that type the atom belongs
  to. The names of the chunk types are taken to differ from the columns \<open>chunk\<close>,
  \<open>atom\<close>, \<open>text\<close> and \<open>ordinal\<close>.
\<close>

record enriched_row =
  e_chunk :: ident
  e_atom :: "ident option"
  e_text :: "string option"
  e_ordinal :: "int option"
  e_cols :: "(string \<times> ident option) list"

definition enriched_rows :: "'v Corpus \<Rightarrow> 'v Chunks \<Rightarrow> enriched_row list" where
  "enriched_rows corp c =
     map (\<lambda>((chunk, m), a).
            \<lparr>e_chunk = chunk, e_atom = map_option snd m, e_text = map_option atom_text a,
             e_ordinal = map_option ordinal a, e_cols = []\<rparr>)
       (left_join (left_join (map chunk_id (chunks c)) (chunk_atoms c) Some fst)
          (rows (atoms corp)) (\<lambda>(_, m). map_option snd m) atom_id)"

text \<open>
  One round of the first loop: drop a column of that name, look the chunk type up in the
  corpus, and left-join its membership table on the atom.
\<close>

definition add_chunk_column :: "'v Corpus \<Rightarrow> string \<Rightarrow> enriched_row list \<Rightarrow> error + enriched_row list"
  where
  "add_chunk_column corp name enriched =
     (case chunk corp name of
        Inl e \<Rightarrow> Inl e
      | Inr b \<Rightarrow>
          Inr (map (\<lambda>(r, m). r\<lparr>e_cols := filter (\<lambda>(n, _). n \<noteq> name) (e_cols r) @
                                             [(name, map_option fst m)]\<rparr>)
                 (left_join enriched (chunk_atoms b) e_atom snd)))"

fun add_chunk_columns ::
  "'v Corpus \<Rightarrow> (string \<times> string) list \<Rightarrow> enriched_row list \<Rightarrow> error + enriched_row list" where
  "add_chunk_columns corp [] enriched = Inr enriched"
| "add_chunk_columns corp ((name, _) # rest) enriched =
     (case add_chunk_column corp name enriched of
        Inl e \<Rightarrow> Inl e
      | Inr enriched' \<Rightarrow> add_chunk_columns corp rest enriched')"

text \<open>
  The conditional spacer of a row, evaluated within its group and in the order of the
  rows of the frame: the delimiter of the first chunk type whose id differs from the one of
  the next row (\<open>shift(-1)\<close>); a comparison with a null is a null and does not count. Then
  the empty string for the last row of the group, and the atom delimiter otherwise.
\<close>

definition chunk_column :: "string \<Rightarrow> enriched_row \<Rightarrow> ident option" where
  "chunk_column name r = (case map_of (e_cols r) name of None \<Rightarrow> None | Some v \<Rightarrow> v)"

definition ne :: "ident option \<Rightarrow> ident option \<Rightarrow> bool" where
  "ne x y = (case (x, y) of (Some a, Some b) \<Rightarrow> a \<noteq> b | _ \<Rightarrow> False)"

fun chunk_spacer :: "(string \<times> string) list \<Rightarrow> enriched_row \<Rightarrow> enriched_row option \<Rightarrow> string option"
  where
  "chunk_spacer [] r next_row = None"
| "chunk_spacer ((name, delimiter) # rest) r next_row =
     (if ne (chunk_column name r) (case next_row of None \<Rightarrow> None | Some r' \<Rightarrow> chunk_column name r')
      then Some delimiter
      else chunk_spacer rest r next_row)"

definition spacers :: "(string \<times> string) list \<Rightarrow> string \<Rightarrow> enriched_row list \<Rightarrow> string list" where
  "spacers chunk_delimiters atom_delimiter grp =
     map (\<lambda>(i, r, next_row).
            case chunk_spacer chunk_delimiters r next_row of
              Some delimiter \<Rightarrow> delimiter
            | None \<Rightarrow> if i = length grp - 1 then [] else atom_delimiter)
       (zip [0..<length grp] (zip grp (map Some (tl grp) @ [None])))"

text \<open>
  The aggregation of one group: text and spacer are concatenated row by row (a null text
  gives a null), the pieces are sorted by ordinal (nulls first), and joined, nulls left out.
\<close>

definition stringify_group :: "(string \<times> string) list \<Rightarrow> string \<Rightarrow> enriched_row list \<Rightarrow> string" where
  "stringify_group chunk_delimiters atom_delimiter grp =
     (let pieces = map (\<lambda>(r, spacer). (e_ordinal r, map_option (\<lambda>t. t @ spacer) (e_text r)))
                     (zip grp (spacers chunk_delimiters atom_delimiter grp));
          sorted_pieces = filter (\<lambda>p. fst p = None) pieces @
                          sort_key (\<lambda>p. the (fst p)) (filter (\<lambda>p. fst p \<noteq> None) pieces)
      in concat (map (\<lambda>p. case snd p of None \<Rightarrow> [] | Some x \<Rightarrow> x) sorted_pieces))"

definition ChunkDelimitedStringify ::
  "(string \<times> string) list \<Rightarrow> string \<Rightarrow> 'v Corpus \<Rightarrow> 'v Chunks \<Rightarrow> error + string list" where
  "ChunkDelimitedStringify chunk_delimiters atom_delimiter corp c =
     (case add_chunk_columns corp chunk_delimiters (enriched_rows corp c) of
        Inl e \<Rightarrow> Inl e
      | Inr enriched \<Rightarrow>
          if ''text'' \<notin> set (names (atoms corp)) then Inl (ColumnNotFoundError ''text'')
          else if ''ordinal'' \<notin> set (names (atoms corp)) then Inl (ColumnNotFoundError ''ordinal'')
          else Inr (map (\<lambda>(chunk, grp). stringify_group chunk_delimiters atom_delimiter grp)
                      (group_by e_chunk enriched)))"

section \<open>Merging corpora\<close>

text \<open>
  \<open>pa.concat_tables\<close>: the tables must have the same schema, and there must be one at
  least.
\<close>

definition concat_tables :: "(string list \<times> 'r list) list \<Rightarrow> error + string list \<times> 'r list" where
  "concat_tables tables =
     (case tables of
        [] \<Rightarrow> Inl (ValueError ''Must pass at least one table'')
      | first # _ \<Rightarrow>
          if list_all (\<lambda>t. fst t = fst first) tables
          then Inr (fst first, concat (map snd tables))
          else Inl (ArrowInvalid ''Schema was different''))"

text \<open>A list comprehension whose elements may raise: the first error wins.\<close>

fun collect :: "(error + 'a) list \<Rightarrow> error + 'a list" where
  "collect [] = Inr []"
| "collect (x # xs) =
     (case x of
        Inl e \<Rightarrow> Inl e
      | Inr v \<Rightarrow> (case collect xs of Inl e \<Rightarrow> Inl e | Inr vs \<Rightarrow> Inr (v # vs)))"

text \<open>
  The body of the loop of \<open>Corpus.merge\<close> for one key \<open>k\<close>: every corpus is asked for
  its chunks of that name, and the tables are concatenated. \<open>new\<close> is the identity of the
  merged corpus.
\<close>

definition merge_key :: "nat \<Rightarrow> 'v Corpus list \<Rightarrow> string \<Rightarrow> error + string \<times> 'v Chunks" where
  "merge_key new corpora k =
     (case collect (map (\<lambda>corp. chunk corp k) corpora) of
        Inl e \<Rightarrow> Inl e
      | Inr k_chunks \<Rightarrow>
          case concat_tables (map (\<lambda>c. (columns c, chunks c)) k_chunks) of
            Inl e \<Rightarrow> Inl e
          | Inr (cols, rs) \<Rightarrow>
              Inr (k, \<lparr>corpus = new, columns = cols, chunks = rs,
                       chunk_atoms = concat (map chunk_atoms k_chunks)\<rparr>))"

text \<open>\<open>Corpus.merge\<close>.\<close>

definition merge :: "nat \<Rightarrow> 'v Corpus list \<Rightarrow> error + 'v Corpus" where
  "merge new corpora =
     (let keys = remdups (concat (map (\<lambda>corp. map fst (corpus_chunks corp)) corpora))
      in case concat_tables (map (\<lambda>corp. (names (atoms corp), rows (atoms corp))) corpora) of
           Inl e \<Rightarrow> Inl e
         | Inr (ns, rs) \<Rightarrow>
             case collect (map (merge_key new corpora) keys) of
               Inl e \<Rightarrow> Inl e
             | Inr entries \<Rightarrow>
                 Inr \<lparr>ref = new, atoms = \<lparr>names = ns, rows = rs\<rparr>, corpus_chunks = entries\<rparr>)"

text \<open>
  The keys (constraint, start, end) of the matches: the structs that are hashed to chunk
  ids.
\<close>

definition match_keys ::
  "(string \<Rightarrow> string \<Rightarrow> (nat \<times> nat) list) \<Rightarrow> string \<Rightarrow> 'v Corpus \<Rightarrow> 'v Chunks \<Rightarrow>
     (ident \<times> nat \<times> nat) list" where
  "match_keys finditer pattern corp bounding =
     concat (map (\<lambda>(constraint, m). case m of None \<Rightarrow> [] | Some (s, e) \<Rightarrow> [(constraint, s, e)])
               (matches finditer pattern corp bounding))"

section \<open>Example corpora\<close>

definition mk_atom :: "ident \<Rightarrow> int \<Rightarrow> string \<Rightarrow> atom" where
  "mk_atom i n t = \<lparr>atom_id = i, ordinal = n, atom_text = t, other = []\<rparr>"

text \<open>Four words in one document (chunk 9) and two lines (chunks 20 and 21).\<close>

definition ex_document :: "int Chunks" where
  "ex_document =
     \<lparr>corpus = 0, columns = [], chunks = [\<lparr>chunk_id = 9, attrs = []\<rparr>],
      chunk_atoms = [(9, 2), (9, 3), (9, 4), (9, 5)]\<rparr>"

definition ex_line :: "int Chunks" where
  "ex_line =
     \<lparr>corpus = 0, columns = [''ordinal''],
      chunks = [\<lparr>chunk_id = 20, attrs = [(''ordinal'', 1)]\<rparr>,
                \<lparr>chunk_id = 21, attrs = [(''ordinal'', 2)]\<rparr>],
      chunk_atoms = [(20, 2), (20, 3), (21, 4), (21, 5)]\<rparr>"

definition ex_atoms :: atom_table where
  "ex_atoms =
     \<lparr>names = [''text'', ''ordinal'', ''id''],
      rows = [mk_atom 2 1 ''Over'', mk_atom 3 2 ''the'', mk_atom 4 3 ''lazy'', mk_atom 5 4 ''dog'']\<rparr>"

definition ex_corpus :: "int Corpus" where
  "ex_corpus =
     \<lparr>ref = 0, atoms = ex_atoms,
      corpus_chunks = [(''document'', ex_document), (''line'', ex_line)]\<rparr>"

text \<open>The same document with a gap in the ordinals: two words, at 0 and at 3.\<close>

definition gap_document :: "int Chunks" where
  "gap_document =
     \<lparr>corpus = 1, columns = [], chunks = [\<lparr>chunk_id = 9, attrs = []\<rparr>],
      chunk_atoms = [(9, 2), (9, 3)]\<rparr>"

definition gap_corpus :: "int Corpus" where
  "gap_corpus =
     \<lparr>ref = 1,
      atoms = \<lparr>names = [''text'', ''ordinal'', ''id''],
               rows = [mk_atom 2 0 ''Over'', mk_atom 3 3 ''dog'']\<rparr>,
      corpus_chunks = [(''document'', gap_document)]\<rparr>"

text \<open>
  The lines after the filter \<open>Threshold("ordinal", "<=", 1)\<close>; the lines with a third
  line that has no atoms; and the document with its membership rows not in reading order
  (the last word comes first).
\<close>

definition ex_line_kept :: "int Chunks" where
  "ex_line_kept =
     \<lparr>corpus = 0, columns = [''ordinal''],
      chunks = [\<lparr>chunk_id = 20, attrs = [(''ordinal'', 1)]\<rparr>],
      chunk_atoms = [(20, 2), (20, 3), (21, 4), (21, 5)]\<rparr>"

definition ex_line_extra :: "int Chunks" where
  "ex_line_extra =
     \<lparr>corpus = 0, columns = [''ordinal''],
      chunks = [\<lparr>chunk_id = 20, attrs = [(''ordinal'', 1)]\<rparr>,
                \<lparr>chunk_id = 21, attrs = [(''ordinal'', 2)]\<rparr>,
                \<lparr>chunk_id = 22, attrs = [(''ordinal'', 3)]\<rparr>],
      chunk_atoms = [(20, 2), (20, 3), (21, 4), (21, 5)]\<rparr>"

definition ex_document_unordered :: "int Chunks" where
  "ex_document_unordered =
     \<lparr>corpus = 0, columns = [], chunks = [\<lparr>chunk_id = 9, attrs = []\<rparr>],
      chunk_atoms = [(9, 5), (9, 2), (9, 3), (9, 4)]\<rparr>"




definition ex_hash3 :: "ident \<times> nat \<times> nat \<Rightarrow> ident" where
  "ex_hash3 = (\<lambda>(c, s, e). c + 10 * s + e)"

definition ex_finditer :: "string \<Rightarrow> string \<Rightarrow> (nat \<times> nat) list" where
  "ex_finditer pattern x =
     (if pattern = ''the lazy'' \<and> x = ''Over the lazy dog'' then [(5, 13)]
      else if pattern = ''e'' \<and> x = ''Over the lazy dog'' then [(2, 3), (7, 8)]
      else [])"

section \<open>Properties of the filters\<close>

lemma mset_idxs_le: "distinct idxs \<Longrightarrow> list_all (\<lambda>i. i < n) idxs \<Longrightarrow> mset idxs \<subseteq># mset [0..<n]"
proof -
  assume d: "distinct idxs" and b: "list_all (\<lambda>i. i < n) idxs"
  have "set idxs \<subseteq> set [0..<n]" using b by (auto simp: list_all_iff)
  then have "mset_set (set idxs) \<subseteq># mset_set (set [0..<n])"
    by (intro subset_imp_msubset_mset_set) auto
  then show ?thesis using d by (simp add: mset_set_set)
qed

lemma take_rows_mset:
  assumes "distinct idxs" and "list_all (\<lambda>i. i < length rs) idxs"
  shows "mset (map (\<lambda>i. rs ! i) idxs) \<subseteq># mset rs"
proof -
  have "image_mset (\<lambda>i. rs ! i) (mset idxs) \<subseteq># image_mset (\<lambda>i. rs ! i) (mset [0..<length rs])"
    by (rule image_mset_subseteq_mono) (rule mset_idxs_le [OF assms])
  also have "image_mset (\<lambda>i. rs ! i) (mset [0..<length rs]) = mset (map (\<lambda>i. rs ! i) [0..<length rs])"
    by simp
  also have "map (\<lambda>i. rs ! i) [0..<length rs] = rs" by (rule map_nth)
  finally show ?thesis by simp
qed

lemma take_rows_all:
  assumes "distinct idxs" and "list_all (\<lambda>i. i < length rs) idxs" and "length idxs = length rs"
  shows "mset (map (\<lambda>i. rs ! i) idxs) = mset rs"
proof -
  have "mset (map (\<lambda>i. rs ! i) idxs) \<subseteq># mset rs" by (rule take_rows_mset [OF assms(1,2)])
  then obtain C where C: "mset rs = mset (map (\<lambda>i. rs ! i) idxs) + C"
    by (auto simp: mset_subset_eq_exists_conv)
  then have "size (mset rs) = size (mset (map (\<lambda>i. rs ! i) idxs)) + size C"
    by (metis size_union)
  then have "size C = 0" using assms(3) by simp
  then show ?thesis using C by simp
qed

lemma take_rows_rest:
  assumes "distinct idxs" and "list_all (\<lambda>i. i < length rs) idxs"
  shows "mset rs - mset (map (\<lambda>i. rs ! i) idxs) = mset (map (\<lambda>i. rs ! i) (filter (\<lambda>j. j \<notin> set idxs) [0..<length rs]))"
proof -
  let ?rest = "filter (\<lambda>j. j \<notin> set idxs) [0..<length rs]"
  have "set (idxs @ ?rest) = set [0..<length rs]"
    using assms(2) by (auto simp: list_all_iff)
  moreover have "distinct (idxs @ ?rest)" using assms(1) by auto
  ultimately have "mset (idxs @ ?rest) = mset [0..<length rs]"
    by (metis distinct_upt set_eq_iff_mset_eq_distinct)
  then have "mset (map (\<lambda>i. rs ! i) (idxs @ ?rest)) = mset (map (\<lambda>i. rs ! i) [0..<length rs])"
    by (metis mset_map)
  then have "mset (map (\<lambda>i. rs ! i) idxs) + mset (map (\<lambda>i. rs ! i) ?rest) = mset rs"
    by (simp add: map_nth)
  then show ?thesis by (metis add_diff_cancel_left')
qed

lemma frame_kept_filter:
  "frame_kept c \<lparr>corpus = corpus c, columns = columns c, chunks = filter P (chunks c),
     chunk_atoms = chunk_atoms c\<rparr>"
  by (simp add: frame_kept_def len_def)

lemma ex_Threshold:
  "Threshold ''width'' ''>'' 5 ex_chunks =
     Inr \<lparr>corpus = 0, columns = [''width''], chunks = [ex_rows ! 0, ex_rows ! 1],
          chunk_atoms = [(10, 1), (11, 2), (12, 3)]\<rparr>"
  by (simp add: Threshold_def has_column_def cell_def compare_values_def ex_chunks_def ex_rows_def)

lemma ex_EqualTo:
  "EqualTo ''width'' [5] ex_chunks =
     Inr \<lparr>corpus = 0, columns = [''width''], chunks = [ex_rows ! 2],
          chunk_atoms = [(10, 1), (11, 2), (12, 3)]\<rparr>"
  by (simp add: EqualTo_def has_column_def cell_def ex_chunks_def ex_rows_def)

lemma ex_TopK:
  "TopK (\<lambda>_ _ _. idxs) ''width'' 2 False ex_chunks =
     (case take_rows ex_rows idxs of Inl e \<Rightarrow> Inl e
      | Inr rs \<Rightarrow> Inr \<lparr>corpus = 0, columns = [''width''], chunks = rs,
          chunk_atoms = [(10, 1), (11, 2), (12, 3)]\<rparr>)"
  by (simp add: TopK_def has_column_def cell_def ex_chunks_def ex_rows_def split: sum.splits)

lemma ex_column: "column ''width'' ex_chunks = [7, 7, 5]"
  by (simp add: column_def cell_def ex_chunks_def ex_rows_def)

text \<open>
  C6. Every filter (Threshold, EqualTo, and TopK when the selection kernel keeps its
  contract) returns a collection with at most as many rows as its input, all of them rows
  of the input, with the same \<open>chunk_atoms\<close> table and the same corpus reference.
\<close>

theorem filters_frame:
  fixes c :: "('v::linorder) Chunks"
  shows "(Threshold attr direction threshold c = Inr c1 \<longrightarrow> frame_kept c c1) \<and>
         (EqualTo attr vals c = Inr c2 \<longrightarrow> frame_kept c c2) \<and>
         (select_k_unstable_spec (column attr c) k reverse (sel (column attr c) k reverse) \<and>
          TopK sel attr k reverse c = Inr c3 \<longrightarrow> frame_kept c c3)"
proof (intro conjI impI)
  assume "Threshold attr direction threshold c = Inr c1"
  then show "frame_kept c c1"
    by (auto simp: Threshold_def frame_kept_filter split: if_splits)
next
  assume "EqualTo attr vals c = Inr c2"
  then show "frame_kept c c2"
    by (auto simp: EqualTo_def frame_kept_filter split: if_splits)
next
  let ?idxs = "sel (column attr c) k reverse"
  assume a: "select_k_unstable_spec (column attr c) k reverse ?idxs \<and> TopK sel attr k reverse c = Inr c3"
  then have d: "distinct ?idxs" and b: "list_all (\<lambda>i. i < length (chunks c)) ?idxs"
    and l: "length ?idxs \<le> length (chunks c)"
    by (simp_all add: select_k_unstable_spec_def column_def)
  from a b have c3: "c3 = \<lparr>corpus = corpus c, columns = columns c, chunks = map (\<lambda>i. chunks c ! i) ?idxs, chunk_atoms = chunk_atoms c\<rparr>"
    by (auto simp: TopK_def take_rows_def Let_def split: if_splits)
  show "frame_kept c c3"
    using take_rows_mset [OF d b] l by (simp add: c3 frame_kept_def len_def)
qed

theorem filters_frame_witness:
  "frame_kept ex_chunks \<lparr>corpus = 0, columns = [''width''], chunks = [ex_rows ! 0, ex_rows ! 1],
      chunk_atoms = [(10, 1), (11, 2), (12, 3)]\<rparr> \<and>
   frame_kept ex_chunks \<lparr>corpus = 0, columns = [''width''], chunks = [ex_rows ! 2],
      chunk_atoms = [(10, 1), (11, 2), (12, 3)]\<rparr> \<and>
   frame_kept ex_chunks \<lparr>corpus = 0, columns = [''width''], chunks = [ex_rows ! 1, ex_rows ! 0],
      chunk_atoms = [(10, 1), (11, 2), (12, 3)]\<rparr>"
proof -
  have s: "select_k_unstable_spec (column ''width'' ex_chunks) 2 False
             ((\<lambda>_ _ _. [1, 0]) (column ''width'' ex_chunks) 2 False)"
    by (simp add: ex_column select_k_unstable_spec_def ordered_def upt_rec)
  have k: "TopK (\<lambda>_ _ _. [1, 0]) ''width'' 2 False ex_chunks =
             Inr \<lparr>corpus = 0, columns = [''width''], chunks = [ex_rows ! 1, ex_rows ! 0],
                  chunk_atoms = [(10, 1), (11, 2), (12, 3)]\<rparr>"
    by (simp add: ex_TopK take_rows_def) (simp add: ex_rows_def)
  show ?thesis
    using filters_frame
      [of "''width''" "''>''" 5 ex_chunks
          "\<lparr>corpus = 0, columns = [''width''], chunks = [ex_rows ! 0, ex_rows ! 1],
             chunk_atoms = [(10, 1), (11, 2), (12, 3)]\<rparr>"
          "[5]"
          "\<lparr>corpus = 0, columns = [''width''], chunks = [ex_rows ! 2],
             chunk_atoms = [(10, 1), (11, 2), (12, 3)]\<rparr>"
          2 False "\<lambda>_ _ _. [1, 0]"
          "\<lparr>corpus = 0, columns = [''width''], chunks = [ex_rows ! 1, ex_rows ! 0],
             chunk_atoms = [(10, 1), (11, 2), (12, 3)]\<rparr>"]
      ex_Threshold ex_EqualTo s k
    by simp
qed



text \<open>
  C4, as amended. When the selection kernel keeps its contract, TopK returns
  \<open>min k n\<close> rows of the input, sorted by \<open>attr\<close> (largest first, smallest first when
  \<open>reverse\<close>); no row left out is better than a selected one; and all rows are returned
  when \<open>k\<close> is at least the row count. The order among rows with equal values is the
  kernel's and is not promised.
\<close>

theorem TopK_selects:
  fixes c :: "('v::linorder) Chunks"
  assumes col: "has_column attr c"
    and spec: "select_k_unstable_spec (column attr c) k reverse (sel (column attr c) k reverse)"
  shows "\<exists>c'. TopK sel attr k reverse c = Inr c' \<and>
           len c' = min k (len c) \<and>
           mset (chunks c') \<subseteq># mset (chunks c) \<and>
           sorted_wrt (\<lambda>r s. ordered reverse (the (cell attr r)) (the (cell attr s))) (chunks c') \<and>
           (\<forall>r \<in># mset (chunks c) - mset (chunks c'). \<forall>s \<in> set (chunks c').
               ordered reverse (the (cell attr s)) (the (cell attr r))) \<and>
           (len c \<le> k \<longrightarrow> mset (chunks c') = mset (chunks c))"
proof -
  let ?rs = "chunks c"
  let ?v = "\<lambda>r. the (cell attr r)"
  let ?idxs = "sel (column attr c) k reverse"
  let ?c' = "\<lparr>corpus = corpus c, columns = columns c, chunks = map (\<lambda>i. ?rs ! i) ?idxs, chunk_atoms = chunk_atoms c\<rparr>"
  from spec have l: "length ?idxs = min k (length ?rs)" and d: "distinct ?idxs"
    and b: "list_all (\<lambda>i. i < length ?rs) ?idxs"
    and srt: "sorted_wrt (\<lambda>i j. ordered reverse (column attr c ! i) (column attr c ! j)) ?idxs"
    and rest: "list_all (\<lambda>j. j \<in> set ?idxs \<or> list_all (\<lambda>i. ordered reverse (column attr c ! i) (column attr c ! j)) ?idxs) [0..<length ?rs]"
    by (simp_all add: select_k_unstable_spec_def column_def)
  have nth: "column attr c ! i = ?v (?rs ! i)" if "i < length ?rs" for i
    using that by (simp add: column_def)
  have call: "TopK sel attr k reverse c = Inr ?c'"
    using col b by (simp add: TopK_def take_rows_def Let_def)
  have in_b: "i < length ?rs" if "i \<in> set ?idxs" for i
    using b that by (simp add: list_all_iff)
  have s1: "sorted_wrt (\<lambda>i j. ordered reverse (?v (?rs ! i)) (?v (?rs ! j))) ?idxs"
    by (rule sorted_wrt_mono_rel [OF _ srt]) (simp add: nth in_b)
  have sorted: "sorted_wrt (\<lambda>r s. ordered reverse (?v r) (?v s)) (chunks ?c')"
    using s1 by (simp add: sorted_wrt_map)
  have others: "ordered reverse (?v s) (?v r)"
    if r: "r \<in># mset ?rs - mset (chunks ?c')" and s: "s \<in> set (chunks ?c')" for r s
  proof -
    from r have "r \<in> set (map (\<lambda>i. ?rs ! i) (filter (\<lambda>j. j \<notin> set ?idxs) [0..<length ?rs]))"
      using take_rows_rest [OF d b] by (simp flip: set_mset_mset)
    then obtain j where j: "j < length ?rs" "j \<notin> set ?idxs" "r = ?rs ! j" by auto
    from s obtain i where i: "i \<in> set ?idxs" "s = ?rs ! i" by auto
    from rest j(1,2) i(1) have "ordered reverse (column attr c ! i) (column attr c ! j)"
      by (auto simp: list_all_iff)
    then show ?thesis using i j in_b by (simp add: nth)
  qed
  have all: "mset (chunks ?c') = mset ?rs" if "len c \<le> k"
    using take_rows_all [OF d b] l that by (simp add: len_def)
  show ?thesis
    apply (rule exI [of _ ?c'])
    using call l take_rows_mset [OF d b] sorted others all
    by (simp add: len_def)
qed

theorem TopK_selects_witness:
  "has_column ''width'' ex_chunks \<and>
   select_k_unstable_spec (column ''width'' ex_chunks) 2 False [0, 1] \<and>
   (\<exists>c'. TopK (\<lambda>_ _ _. [0, 1]) ''width'' 2 False ex_chunks = Inr c' \<and>
      len c' = min 2 (len ex_chunks) \<and>
      mset (chunks c') \<subseteq># mset (chunks ex_chunks) \<and>
      sorted_wrt (\<lambda>r s. ordered False (the (cell ''width'' r)) (the (cell ''width'' s))) (chunks c') \<and>
      (\<forall>r \<in># mset (chunks ex_chunks) - mset (chunks c'). \<forall>s \<in> set (chunks c').
          ordered False (the (cell ''width'' s)) (the (cell ''width'' r))) \<and>
      (len ex_chunks \<le> 2 \<longrightarrow> mset (chunks c') = mset (chunks ex_chunks)))"
proof -
  have h: "has_column ''width'' ex_chunks"
    by (simp add: has_column_def cell_def ex_chunks_def ex_rows_def)
  have s: "select_k_unstable_spec (column ''width'' ex_chunks) 2 False
             ((\<lambda>_ _ _. [0, 1]) (column ''width'' ex_chunks) 2 False)"
    by (simp add: ex_column select_k_unstable_spec_def ordered_def upt_rec)
  show ?thesis
    using TopK_selects [OF h s] h s by simp
qed

text \<open>
  C4 as stated fails: the index list \<open>[1, 0]\<close> keeps the kernel's contract on two
  equally wide lines, and with it TopK returns the two lines in the reverse of their
  input order.
\<close>

theorem TopK_tie_order_counterexample:
  "select_k_unstable_spec (column ''width'' ex_chunks) 2 False [1, 0] \<and>
   TopK (\<lambda>_ _ _. [1, 0]) ''width'' 2 False ex_chunks =
     Inr \<lparr>corpus = 0, columns = [''width''], chunks = [ex_rows ! 1, ex_rows ! 0],
          chunk_atoms = [(10, 1), (11, 2), (12, 3)]\<rparr> \<and>
   \<not> keeps_tie_order (column ''width'' ex_chunks) [1, 0]"
proof -
  have "TopK (\<lambda>_ _ _. [1, 0]) ''width'' 2 False ex_chunks =
          Inr \<lparr>corpus = 0, columns = [''width''], chunks = [ex_rows ! 1, ex_rows ! 0],
               chunk_atoms = [(10, 1), (11, 2), (12, 3)]\<rparr>"
    by (simp add: ex_TopK take_rows_def) (simp add: ex_rows_def)
  then show ?thesis
    by (simp add: ex_column select_k_unstable_spec_def ordered_def keeps_tie_order_def upt_rec)
qed

section \<open>Properties of the chunk expressions\<close>


lemma set_unique: "set (unique ks) = set ks"
  by (simp add: unique_def)









lemma ex_joined_sorted:
  "joined_sorted ex_corpus ex_document =
     [(9, mk_atom 2 1 ''Over''), (9, mk_atom 3 2 ''the''), (9, mk_atom 4 3 ''lazy''), (9, mk_atom 5 4 ''dog'')]"
  by (simp add: joined_sorted_def sort_rows_def joined_def inner_join_def ex_corpus_def ex_document_def
      ex_atoms_def mk_atom_def)








lemma cum_sum_from_length [simp]: "length (cum_sum_from acc xs) = length xs"
  by (induction xs arbitrary: acc) auto

lemma cum_sum_from_nth:
  "k < length xs \<Longrightarrow> cum_sum_from acc xs ! k = acc + sum_list (take (Suc k) xs)"
proof (induction xs arbitrary: acc k)
  case Nil
  then show ?case by simp
next
  case (Cons x xs)
  then show ?case by (cases k) (auto simp: add.assoc)
qed

lemma shift1_length [simp]: "length (shift1 f xs) = length xs"
  by (cases xs) (auto simp: shift1_def)

lemma shift1_nth:
  "k < length xs \<Longrightarrow> shift1 f xs ! k = (if k = 0 then f else xs ! (k - 1))"
  by (cases k) (auto simp: shift1_def nth_butlast)

lemma start_index_length [simp]: "length (start_index grp) = length grp"
  by (simp add: start_index_def cum_sum_def)

lemma start_index_nth:
  assumes "k < length grp"
  shows "start_index grp ! k =
           sum_list (take k (map (\<lambda>r. length (atom_text (snd r)) + length SPACER) grp))"
proof (cases k)
  case 0
  then show ?thesis using assms by (simp add: start_index_def cum_sum_def shift1_nth)
next
  case (Suc j)
  then show ?thesis
    using assms by (simp add: start_index_def cum_sum_def shift1_nth cum_sum_from_nth)
qed

lemma str_join_Cons: "ts \<noteq> [] \<Longrightarrow> str_join d (t # ts) = t @ d @ str_join d ts"
  by (cases ts) auto

lemma str_join_prefix: "take (length t) (str_join d (t # ts)) = t"
  by (cases ts) auto

lemma drop_str_join:
  "k < length ts \<Longrightarrow>
     drop (sum_list (take k (map (\<lambda>t. length t + length d) ts))) (str_join d ts) = str_join d (drop k ts)"
proof (induction ts arbitrary: k)
  case Nil
  then show ?case by simp
next
  case (Cons t ts)
  show ?case
  proof (cases k)
    case 0
    then show ?thesis by simp
  next
    case (Suc j)
    then have j: "j < length ts" using Cons.prems by simp
    then have "ts \<noteq> []" by auto
    then show ?thesis using Cons.IH [OF j] by (simp add: Suc str_join_Cons)
  qed
qed

lemma start_index_offset:
  assumes "k < length grp"
  shows "take (length (atom_text (snd (grp ! k)))) (drop (start_index grp ! k) (search_string grp)) =
           atom_text (snd (grp ! k))"
proof -
  let ?ts = "map (\<lambda>r. atom_text (snd r)) grp"
  have k: "k < length ?ts" using assms by simp
  have "start_index grp ! k = sum_list (take k (map (\<lambda>t. length t + length SPACER) ?ts))"
    by (simp add: start_index_nth [OF assms] comp_def)
  then have "drop (start_index grp ! k) (search_string grp) = str_join SPACER (drop k ?ts)"
    using drop_str_join [OF k, of SPACER] by (simp add: search_string_def)
  also have "drop k ?ts = ?ts ! k # drop (Suc k) ?ts" using Cons_nth_drop_Suc [OF k] by simp
  finally show ?thesis using assms by (simp add: str_join_prefix)
qed

lemma group_by_keys: "map fst (group_by key xs) = unique (map key xs)"
  by (simp add: group_by_def comp_def)

lemma set_group_by_rows:
  "set (concat (map (\<lambda>(k, rs). map (\<lambda>r. (k, snd r)) rs) (group_by fst xs))) = set xs"
  by (force simp: group_by_def set_unique)

lemma in_group_by_concat:
  "x \<in> set (concat (map (\<lambda>(k, grp). f k grp) (group_by key rs))) \<longleftrightarrow>
     (\<exists>k \<in> key ` set rs. x \<in> set (f k (filter (\<lambda>r. key r = k) rs)))"
  by (auto simp: group_by_def set_unique)

lemma group_nonempty: "filter (\<lambda>r. key r = k) rs \<noteq> [] \<longleftrightarrow> k \<in> key ` set rs"
  by (auto simp: filter_empty_conv)

lemma in_exploded:
  "(c, Some m) \<in> set (case ms of [] \<Rightarrow> [(k, None)] | a # list \<Rightarrow> map (\<lambda>m. (k, Some m)) (a # list)) \<longleftrightarrow>
     c = k \<and> m \<in> set ms"
  by (cases ms) auto

lemma in_matches:
  "(c, Some m) \<in> set (matches finditer pattern corp bounding) \<longleftrightarrow>
     filter (\<lambda>r. fst r = c) (joined_sorted corp bounding) \<noteq> [] \<and>
     m \<in> set (finditer pattern (search_string (filter (\<lambda>r. fst r = c) (joined_sorted corp bounding))))"
  (is "?L \<longleftrightarrow> ?R")
proof -
  let ?grp = "\<lambda>k. filter (\<lambda>r. fst r = k) (joined_sorted corp bounding)"
  let ?f = "\<lambda>k grp. case finditer pattern (search_string grp) of
                      [] \<Rightarrow> [(k, None)]
                    | a # list \<Rightarrow> map (\<lambda>m. (k, Some m)) (a # list)"
  have "matches finditer pattern corp bounding =
          concat (map (\<lambda>(k, grp). ?f k grp) (group_by fst (joined_sorted corp bounding)))"
    by (simp add: matches_def)
  then have "?L \<longleftrightarrow> (\<exists>k \<in> fst ` set (joined_sorted corp bounding). (c, Some m) \<in> set (?f k (?grp k)))"
    by (simp only: in_group_by_concat)
  also have "\<dots> \<longleftrightarrow> (\<exists>k \<in> fst ` set (joined_sorted corp bounding).
                      c = k \<and> m \<in> set (finditer pattern (search_string (?grp k))))"
    by (simp only: in_exploded)
  also have "\<dots> \<longleftrightarrow> (c \<in> fst ` set (joined_sorted corp bounding) \<and>
                      m \<in> set (finditer pattern (search_string (?grp c))))"
    by blast
  also have "\<dots> \<longleftrightarrow> ?R" by (simp only: group_nonempty)
  finally show ?thesis .
qed

lemma in_indices:
  "(c, a, i) \<in> set (indices corp bounding) \<longleftrightarrow>
     (\<exists>k < length (filter (\<lambda>r. fst r = c) (joined_sorted corp bounding)).
        a = atom_id (snd (filter (\<lambda>r. fst r = c) (joined_sorted corp bounding) ! k)) \<and>
        i = start_index (filter (\<lambda>r. fst r = c) (joined_sorted corp bounding)) ! k)"
  (is "?L \<longleftrightarrow> ?R")
proof -
  let ?grp = "\<lambda>k. filter (\<lambda>r. fst r = k) (joined_sorted corp bounding)"
  let ?f = "\<lambda>k grp. map (\<lambda>(r, i). (k, atom_id (snd r), i)) (zip grp (start_index grp))"
  have row: "(c, a, i) \<in> set (?f k grp) \<longleftrightarrow>
      c = k \<and> (\<exists>j < length grp. a = atom_id (snd (grp ! j)) \<and> i = start_index grp ! j)" for k grp
  proof -
    have "set (zip grp (start_index grp)) = {(grp ! j, start_index grp ! j) | j. j < length grp}"
      by (simp add: set_zip)
    then have "set (?f k grp) = {(k, atom_id (snd (grp ! j)), start_index grp ! j) | j. j < length grp}"
      by (auto simp: image_iff)
    then show ?thesis by auto
  qed
  have "indices corp bounding =
          concat (map (\<lambda>(k, grp). ?f k grp) (group_by fst (joined_sorted corp bounding)))"
    by (simp add: indices_def)
  then have "?L \<longleftrightarrow> (\<exists>k \<in> fst ` set (joined_sorted corp bounding). (c, a, i) \<in> set (?f k (?grp k)))"
    by (simp only: in_group_by_concat)
  also have "\<dots> \<longleftrightarrow> (c \<in> fst ` set (joined_sorted corp bounding) \<and> ?R)"
    unfolding row by blast
  also have "\<dots> \<longleftrightarrow> ?R"
  proof -
    have "?grp c \<noteq> []" if "?R" using that by auto
    then show ?thesis by (auto simp only: group_nonempty)
  qed
  finally show ?thesis .
qed

lemma in_match_keys:
  "(c, s, e) \<in> set (match_keys finditer pattern corp bounding) \<longleftrightarrow>
     (c, Some (s, e)) \<in> set (matches finditer pattern corp bounding)"
  by (force simp: match_keys_def split: option.splits)

lemma set_inner_join:
  "set (inner_join left right left_on right_on) =
     {(l, r). l \<in> set left \<and> r \<in> set right \<and> right_on r = left_on l}"
  by (auto simp: inner_join_def)

lemma in_match_rows:
  "((c, s, e), a) \<in> set (match_rows finditer pattern corp bounding) \<longleftrightarrow>
     (c, Some (s, e)) \<in> set (matches finditer pattern corp bounding) \<and>
     (\<exists>i. (c, a, i) \<in> set (indices corp bounding) \<and> s \<le> i \<and> i \<le> e)"
  by (force simp: match_rows_def set_inner_join split: option.splits if_splits)


lemma RegexMatchChunk_out:
  assumes out: "RegexMatchChunk finditer hash constrain_to pattern corp = Inr out"
    and bounding: "chunk corp constrain_to = Inr bounding"
  shows "set (chunk_atoms out) =
           (\<lambda>(key, a). (hash key, a)) ` set (match_rows finditer pattern corp bounding)"
    and "chunk_id ` set (chunks out) = fst ` set (chunk_atoms out)"
proof -
  let ?rows = "map (\<lambda>(key, a). (hash key, a)) (match_rows finditer pattern corp bounding)"
  let ?frame = "group_by fst ?rows"
  from out bounding have o: "out = \<lparr>corpus = ref corp, columns = [],
      chunks = map (\<lambda>(i, members). \<lparr>chunk_id = i, attrs = []\<rparr>) ?frame,
      chunk_atoms = concat (map (\<lambda>(i, members). map (\<lambda>r. (i, snd r)) members) ?frame)\<rparr>"
    by (auto simp: RegexMatchChunk_def Let_def split: if_splits)
  have "chunk_atoms out = concat (map (\<lambda>(i, members). map (\<lambda>r. (i, snd r)) members) ?frame)"
    by (simp add: o)
  then have ca: "set (chunk_atoms out) = set ?rows"
    by (simp only: set_group_by_rows)
  then show "set (chunk_atoms out) =
           (\<lambda>(key, a). (hash key, a)) ` set (match_rows finditer pattern corp bounding)"
    by simp
  have "map chunk_id (chunks out) = map fst ?frame"
    by (simp add: o comp_def case_prod_unfold)
  then have "set (map chunk_id (chunks out)) = fst ` set ?rows"
    by (simp only: group_by_keys set_unique set_map)
  then show "chunk_id ` set (chunks out) = fst ` set (chunk_atoms out)"
    by (simp only: ca set_map)
qed

text \<open>
  C8. Let \<open>(s, e)\<close> be a match in the search string of the bounding chunk \<open>c\<close>, and let
  the hash be free of collisions on the keys of the matches. Then an atom is a member of
  the chunk of the match if and only if it is an atom of \<open>c\<close> whose start index lies in
  the closed interval from \<open>s\<close> to \<open>e\<close>; the chunk is emitted if and only if there is
  such an atom; every emitted chunk has at least one atom; and the start index of an atom
  is the offset of its text in the search string.
\<close>

theorem RegexMatchChunk_membership:
  assumes out: "RegexMatchChunk finditer hash constrain_to pattern corp = Inr out"
    and bounding: "chunk corp constrain_to = Inr bounding"
    and inj: "inj_on hash (set (match_keys finditer pattern corp bounding))"
    and grp: "grp = filter (\<lambda>r. fst r = c) (joined_sorted corp bounding)"
    and nonempty: "grp \<noteq> []"
    and m: "(s, e) \<in> set (finditer pattern (search_string grp))"
  shows "((hash (c, s, e), a) \<in> set (chunk_atoms out) \<longleftrightarrow>
            (\<exists>k < length grp. a = atom_id (snd (grp ! k)) \<and>
                s \<le> start_index grp ! k \<and> start_index grp ! k \<le> e)) \<and>
         (hash (c, s, e) \<in> chunk_id ` set (chunks out) \<longleftrightarrow>
            (\<exists>k < length grp. s \<le> start_index grp ! k \<and> start_index grp ! k \<le> e)) \<and>
         (\<forall>r \<in> set (chunks out). \<exists>a. (chunk_id r, a) \<in> set (chunk_atoms out)) \<and>
         (\<forall>k < length grp.
            take (length (atom_text (snd (grp ! k)))) (drop (start_index grp ! k) (search_string grp)) =
              atom_text (snd (grp ! k)))"
proof -
  have key: "(c, s, e) \<in> set (match_keys finditer pattern corp bounding)"
    using m nonempty by (simp add: in_match_keys in_matches grp)
  have mt: "(c, Some (s, e)) \<in> set (matches finditer pattern corp bounding)"
    using key by (simp add: in_match_keys)
  have keys: "k \<in> set (match_keys finditer pattern corp bounding)"
    if "(k, a') \<in> set (match_rows finditer pattern corp bounding)" for k a'
  proof -
    obtain c' s' e' where k: "k = (c', s', e')" by (cases k) auto
    show ?thesis using that unfolding k by (simp add: in_match_rows in_match_keys)
  qed
  have member: "(hash (c, s, e), a') \<in> set (chunk_atoms out) \<longleftrightarrow>
      ((c, s, e), a') \<in> set (match_rows finditer pattern corp bounding)" for a'
  proof
    assume "(hash (c, s, e), a') \<in> set (chunk_atoms out)"
    then obtain k where k: "(k, a') \<in> set (match_rows finditer pattern corp bounding)"
      and h: "hash k = hash (c, s, e)"
      unfolding RegexMatchChunk_out(1) [OF out bounding] by auto
    from inj keys [OF k] key h have "k = (c, s, e)" by (auto dest: inj_onD)
    then show "((c, s, e), a') \<in> set (match_rows finditer pattern corp bounding)" using k by simp
  next
    assume "((c, s, e), a') \<in> set (match_rows finditer pattern corp bounding)"
    then show "(hash (c, s, e), a') \<in> set (chunk_atoms out)"
      unfolding RegexMatchChunk_out(1) [OF out bounding] by force
  qed
  have rows: "((c, s, e), a') \<in> set (match_rows finditer pattern corp bounding) \<longleftrightarrow>
      (\<exists>k < length grp. a' = atom_id (snd (grp ! k)) \<and>
                s \<le> start_index grp ! k \<and> start_index grp ! k \<le> e)" for a'
    using mt by (auto simp: in_match_rows in_indices grp)
  have p1: "(hash (c, s, e), a) \<in> set (chunk_atoms out) \<longleftrightarrow>
            (\<exists>k < length grp. a = atom_id (snd (grp ! k)) \<and>
                s \<le> start_index grp ! k \<and> start_index grp ! k \<le> e)"
    by (simp only: member rows)
  have "hash (c, s, e) \<in> chunk_id ` set (chunks out) \<longleftrightarrow>
          (\<exists>a'. (hash (c, s, e), a') \<in> set (chunk_atoms out))"
    unfolding RegexMatchChunk_out(2) [OF out bounding] by force
  then have p2: "hash (c, s, e) \<in> chunk_id ` set (chunks out) \<longleftrightarrow>
            (\<exists>k < length grp. s \<le> start_index grp ! k \<and> start_index grp ! k \<le> e)"
    unfolding member rows by blast
  have p3: "\<forall>r \<in> set (chunks out). \<exists>a. (chunk_id r, a) \<in> set (chunk_atoms out)"
  proof
    fix r assume "r \<in> set (chunks out)"
    then have "chunk_id r \<in> fst ` set (chunk_atoms out)"
      using RegexMatchChunk_out(2) [OF out bounding] by blast
    then show "\<exists>a. (chunk_id r, a) \<in> set (chunk_atoms out)" by force
  qed
  have p4: "\<forall>k < length grp.
            take (length (atom_text (snd (grp ! k)))) (drop (start_index grp ! k) (search_string grp)) =
              atom_text (snd (grp ! k))"
    by (simp add: start_index_offset)
  show ?thesis using p1 p2 p3 p4 by blast
qed

lemma ex_group: "filter (\<lambda>r. fst r = 9) (joined_sorted ex_corpus ex_document) =
     [(9, mk_atom 2 1 ''Over''), (9, mk_atom 3 2 ''the''), (9, mk_atom 4 3 ''lazy''), (9, mk_atom 5 4 ''dog'')]"
  by (simp add: ex_joined_sorted)

lemma ex_search_string:
  "search_string [(9, mk_atom 2 1 ''Over''), (9, mk_atom 3 2 ''the''), (9, mk_atom 4 3 ''lazy''), (9, mk_atom 5 4 ''dog'')] =
     ''Over the lazy dog''"
  by (simp add: search_string_def SPACER_def mk_atom_def)

lemma ex_start_index:
  "start_index [(9, mk_atom 2 1 ''Over''), (9, mk_atom 3 2 ''the''), (9, mk_atom 4 3 ''lazy''), (9, mk_atom 5 4 ''dog'')] =
     [0, 5, 9, 14]"
  by (simp add: start_index_def cum_sum_def shift1_def SPACER_def mk_atom_def)

lemma ex_matches:
  "matches ex_finditer ''the lazy'' ex_corpus ex_document = [(9, Some (5, 13))]"
  by (simp add: matches_def group_by_def unique_def ex_joined_sorted ex_search_string ex_finditer_def)

lemma ex_indices:
  "indices ex_corpus ex_document = [(9, 2, 0), (9, 3, 5), (9, 4, 9), (9, 5, 14)]"
  by (simp add: indices_def group_by_def unique_def ex_joined_sorted ex_start_index) (simp add: mk_atom_def)

lemma ex_match_rows:
  "match_rows ex_finditer ''the lazy'' ex_corpus ex_document = [((9, 5, 13), 3), ((9, 5, 13), 4)]"
  by (simp add: match_rows_def ex_matches ex_indices inner_join_def)

lemma ex_RegexMatchChunk:
  "RegexMatchChunk ex_finditer ex_hash3 ''document'' ''the lazy'' ex_corpus =
     Inr \<lparr>corpus = 0, columns = [], chunks = [\<lparr>chunk_id = 72, attrs = []\<rparr>],
          chunk_atoms = [(72, 3), (72, 4)]\<rparr>"
proof -
  have c: "chunk ex_corpus ''document'' = Inr ex_document" by (simp add: chunk_def ex_corpus_def)
  have n: "names (atoms ex_corpus) = [''text'', ''ordinal'', ''id'']" "ref ex_corpus = 0"
    by (simp_all add: ex_corpus_def ex_atoms_def)
  show ?thesis
    by (simp add: RegexMatchChunk_def c n ex_match_rows group_by_def unique_def ex_hash3_def)
qed

theorem RegexMatchChunk_membership_witness:
  "RegexMatchChunk ex_finditer ex_hash3 ''document'' ''the lazy'' ex_corpus =
     Inr \<lparr>corpus = 0, columns = [], chunks = [\<lparr>chunk_id = 72, attrs = []\<rparr>],
          chunk_atoms = [(72, 3), (72, 4)]\<rparr> \<and>
   chunk ex_corpus ''document'' = Inr ex_document \<and>
   inj_on ex_hash3 (set (match_keys ex_finditer ''the lazy'' ex_corpus ex_document)) \<and>
   filter (\<lambda>r. fst r = 9) (joined_sorted ex_corpus ex_document) \<noteq> [] \<and>
   (5, 13) \<in> set (ex_finditer ''the lazy''
      (search_string (filter (\<lambda>r. fst r = 9) (joined_sorted ex_corpus ex_document)))) \<and>
   (\<exists>k < length (filter (\<lambda>r. fst r = 9) (joined_sorted ex_corpus ex_document)).
      3 = atom_id (snd (filter (\<lambda>r. fst r = 9) (joined_sorted ex_corpus ex_document) ! k)) \<and>
      5 \<le> start_index (filter (\<lambda>r. fst r = 9) (joined_sorted ex_corpus ex_document)) ! k \<and>
      start_index (filter (\<lambda>r. fst r = 9) (joined_sorted ex_corpus ex_document)) ! k \<le> 13)"
proof -
  let ?out = "\<lparr>corpus = 0, columns = [], chunks = [\<lparr>chunk_id = 72, attrs = []\<rparr>],
          chunk_atoms = [(72, 3), (72, 4)]\<rparr> :: int Chunks"
  have c: "chunk ex_corpus ''document'' = Inr ex_document" by (simp add: chunk_def ex_corpus_def)
  have i: "inj_on ex_hash3 (set (match_keys ex_finditer ''the lazy'' ex_corpus ex_document))"
    by (simp add: match_keys_def ex_matches)
  have g: "filter (\<lambda>r. fst r = 9) (joined_sorted ex_corpus ex_document) \<noteq> []"
    by (simp add: ex_group)
  have m: "(5, 13) \<in> set (ex_finditer ''the lazy''
      (search_string (filter (\<lambda>r. fst r = 9) (joined_sorted ex_corpus ex_document))))"
    by (simp add: ex_group ex_search_string ex_finditer_def)
  have h: "(ex_hash3 (9, 5, 13), 3) \<in> set (chunk_atoms ?out)" by (simp add: ex_hash3_def)
  from RegexMatchChunk_membership [OF ex_RegexMatchChunk c i refl g m, of 3] h
  show ?thesis using ex_RegexMatchChunk c i g m by blast
qed

section \<open>Properties of the attribute expressions\<close>









lemma ex_names: "names (atoms ex_corpus) = [''text'', ''ordinal'', ''id'']"
  by (simp add: ex_corpus_def ex_atoms_def)

lemma ex_rows: "rows (atoms ex_corpus) =
    [mk_atom 2 1 ''Over'', mk_atom 3 2 ''the'', mk_atom 4 3 ''lazy'', mk_atom 5 4 ''dog'']"
  by (simp add: ex_corpus_def ex_atoms_def)









text \<open>
  C1 fails on the code. After a filter has removed the second line, ChunkOverlap still
  returns a value for each chunk of the membership table: two values for one row. For the
  lines with a third, empty line, AtomData returns two lists for three rows.
\<close>

theorem attribute_row_count_failing_input:
  "Threshold ''ordinal'' ''<='' 1 ex_line = Inr ex_line_kept \<and>
   len ex_line_kept = 1 \<and>
   ChunkOverlap (Inl ''document'') ''count'' ex_corpus ex_line_kept = Inr [OCount 2, OCount 2] \<and>
   len ex_line_extra = 3 \<and>
   AtomData ''text'' ex_corpus ex_line_extra =
     Inr [[StrV ''Over'', StrV ''the''], [StrV ''lazy'', StrV ''dog'']]"
proof -
  have t: "Threshold ''ordinal'' ''<='' 1 ex_line = Inr ex_line_kept"
    by (simp add: Threshold_def has_column_def cell_def compare_values_def ex_line_def ex_line_kept_def)
  have l: "len ex_line_kept = 1" "len ex_line_extra = 3"
    by (simp_all add: len_def ex_line_kept_def ex_line_extra_def)
  have d: "chunk_of ex_corpus (Inl ''document'') = Inr ex_document"
    by (simp add: chunk_of_def chunk_def ex_corpus_def)
  have o: "ChunkOverlap (Inl ''document'') ''count'' ex_corpus ex_line_kept = Inr [OCount 2, OCount 2]"
    by (simp add: ChunkOverlap_def d ex_line_kept_def ex_document_def left_join_def group_by_def
        unique_def aggregate_def)
  have a: "AtomData ''text'' ex_corpus ex_line_extra =
     Inr [[StrV ''Over'', StrV ''the''], [StrV ''lazy'', StrV ''dog'']]"
    by (simp add: AtomData_def ex_names ex_rows ex_line_extra_def inner_join_def group_by_def
        unique_def mk_atom_def atom_value_def)
  show ?thesis using t l o a by simp
qed

text \<open>
  C2 fails on the code. The name \<open>line\<close> is registered in the first corpus and not in
  the second: the merge asks every corpus for the chunks of every name and raises the
  \<open>KeyError\<close> of the lookup.
\<close>

theorem merge_missing_name_failing_input:
  "merge 7 [ex_corpus, gap_corpus] = Inl (KeyError ''line'')"
  by (simp add: merge_def merge_key_def concat_tables_def chunk_def ex_corpus_def ex_atoms_def
      gap_corpus_def)

text \<open>
  C9 fails on the code. The spacers are chosen between neighbours in the order of the
  membership table, before the pieces are sorted by ordinal. With the membership rows of
  the document listing \<open>dog\<close> first, the last word is followed by the line delimiter and
  not by the empty string, and \<open>lazy\<close> and \<open>dog\<close>, neighbours on one line, have no
  delimiter between them; with the rows in reading order the result is the expected one.
\<close>

theorem ChunkDelimitedStringify_unordered_failing_input:
  "ChunkDelimitedStringify [(''line'', ''|'')] ''?'' ex_corpus ex_document_unordered =
     Inr [''Over?the|lazydog|''] \<and>
   ChunkDelimitedStringify [(''line'', ''|'')] ''?'' ex_corpus ex_document =
     Inr [''Over?the|lazy?dog'']"
proof -
  have l: "chunk ex_corpus ''line'' = Inr ex_line" by (simp add: chunk_def ex_corpus_def)
  have u: "[0..<4] = [0, 1, 2, 3]" by (simp add: upt_rec)
  have a: "ChunkDelimitedStringify [(''line'', ''|'')] ''?'' ex_corpus ex_document_unordered =
     Inr [''Over?the|lazydog|'']"
    by (simp add: ChunkDelimitedStringify_def add_chunk_column_def l enriched_rows_def ex_names ex_rows
        ex_document_unordered_def ex_line_def left_join_def group_by_def unique_def mk_atom_def
        stringify_group_def spacers_def chunk_column_def ne_def u)
  have b: "ChunkDelimitedStringify [(''line'', ''|'')] ''?'' ex_corpus ex_document =
     Inr [''Over?the|lazy?dog'']"
    by (simp add: ChunkDelimitedStringify_def add_chunk_column_def l enriched_rows_def ex_names ex_rows
        ex_document_def ex_line_def left_join_def group_by_def unique_def mk_atom_def
        stringify_group_def spacers_def chunk_column_def ne_def u)
  show ?thesis using a b by simp
qed

end
